theory Spec2Isabelle
  imports Complex_Main "HOL-Library.Sublist"
begin

section \<open>Python values the script works with\<close>

text \<open>
  The script \<^verbatim>\<open>backup_script.py\<close> is one module that runs top to bottom: it reads its
  configuration from the environment, names and creates a zip archive, uploads it with
  rclone, appends a line to the history log, posts a webhook and finally deletes old
  archives (\<^verbatim>\<open>delete_old_files\<close>). Every exception that is not caught ends the script, so
  each step of the model returns \<open>Some e\<close> for an exception \<open>e\<close> that propagates and
  \<open>None\<close> for normal completion, next to the state reached.
\<close>

datatype error = TypeError | ValueError | OSError

subsection \<open>Strings\<close>

text \<open>\<^verbatim>\<open>str.split(sep)\<close> for a one-character separator.\<close>

fun split_on :: "char \<Rightarrow> string \<Rightarrow> string list" where
  "split_on c [] = [[]]"
| "split_on c (x # xs) =
     (if x = c then [] # split_on c xs
      else (case split_on c xs of [] \<Rightarrow> [[x]] | y # ys \<Rightarrow> (x # y) # ys))"

text \<open>\<^verbatim>\<open>sep.join(xs)\<close>.\<close>

fun join_sep :: "string \<Rightarrow> string list \<Rightarrow> string" where
  "join_sep sep [] = []"
| "join_sep sep [x] = x"
| "join_sep sep (x # y # ys) = x @ sep @ join_sep sep (y # ys)"

text \<open>\<^verbatim>\<open>s.rfind(c)\<close>: the index of the last occurrence of \<open>c\<close>, or \<open>-1\<close>.\<close>

fun rfind :: "string \<Rightarrow> char \<Rightarrow> int" where
  "rfind [] c = -1"
| "rfind (x # xs) c =
     (let r = rfind xs c in if 0 \<le> r then r + 1 else if x = c then 0 else -1)"

text \<open>\<^verbatim>\<open>str.lower()\<close> on the ASCII letters (no other character lowers to a letter of \<^verbatim>\<open>"true"\<close>).\<close>

definition lower_char :: "char \<Rightarrow> char" where
  "lower_char c =
     (let n = (of_char c :: nat) in if 65 \<le> n \<and> n \<le> 90 then char_of (n + 32) else c)"

definition lower :: "string \<Rightarrow> string" where
  "lower s = map lower_char s"

text \<open>How an f-string renders a value that \<^verbatim>\<open>os.getenv\<close> returned: \<^verbatim>\<open>None\<close> prints as \<^verbatim>\<open>None\<close>.\<close>

definition fstr :: "string option \<Rightarrow> string" where
  "fstr v = (case v of None \<Rightarrow> ''None'' | Some s \<Rightarrow> s)"

text \<open>Decimal digits of a natural number, and zero padding to a width, as \<^verbatim>\<open>strftime\<close> pads.\<close>

definition digit_char :: "nat \<Rightarrow> char" where
  "digit_char d = ''0123456789'' ! (d mod 10)"

fun show_nat :: "nat \<Rightarrow> string" where
  "show_nat n = (if n < 10 then [digit_char n] else show_nat (n div 10) @ [digit_char n])"

declare show_nat.simps [simp del]

definition zfill :: "nat \<Rightarrow> string \<Rightarrow> string" where
  "zfill w s = replicate (w - length s) CHR ''0'' @ s"

subsection \<open>pathlib paths (POSIX flavour)\<close>

text \<open>
  A \<^verbatim>\<open>Path\<close> is its root (\<^verbatim>\<open>""\<close>, \<^verbatim>\<open>"/"\<close> or \<^verbatim>\<open>"//"\<close>) and its components. Parsing drops
  empty components and \<^verbatim>\<open>"."\<close>; joining with an absolute segment discards what stood
  before it.
\<close>

record pure_path =
  root :: string
  parts :: "string list"

definition splitroot :: "string \<Rightarrow> string \<times> string" where
  "splitroot p =
     (if take 1 p = ''/'' then
        (if take 1 (drop 1 p) = ''/'' \<and> take 1 (drop 2 p) \<noteq> ''/'' then (''//'', drop 2 p)
         else (''/'', drop 1 p))
      else ([], p))"

definition Path :: "string \<Rightarrow> pure_path" where
  "Path s =
     (case splitroot s of
        (r, rel) \<Rightarrow> \<lparr>root = r, parts = filter (\<lambda>x. x \<noteq> [] \<and> x \<noteq> ''.'') (split_on CHR ''/'' rel)\<rparr>)"

text \<open>The operator \<^verbatim>\<open>/\<close> of \<^verbatim>\<open>Path\<close> with a string on the right.\<close>

definition truediv :: "pure_path \<Rightarrow> string \<Rightarrow> pure_path" where
  "truediv p s =
     (let q = Path s in
      if root q = [] then \<lparr>root = root p, parts = parts p @ parts q\<rparr> else q)"

definition path_str :: "pure_path \<Rightarrow> string" where
  "path_str p =
     (if root p = [] \<and> parts p = [] then ''.'' else root p @ join_sep ''/'' (parts p))"

definition path_name :: "pure_path \<Rightarrow> string" where
  "path_name p = (if parts p = [] then [] else last (parts p))"

text \<open>
  \<^verbatim>\<open>PurePath.suffix\<close>: the text from the last dot of the name on, when that dot is neither
  the first nor the last character of the name.
\<close>

definition path_suffix :: "pure_path \<Rightarrow> string" where
  "path_suffix p =
     (let name = path_name p; i = rfind name CHR ''.'' in
      if 0 < i \<and> i < int (length name) - 1 then drop (nat i) name else [])"

subsection \<open>Clock readings\<close>

record datetime =
  year :: nat
  month :: nat
  day :: nat
  hour :: nat
  minute :: nat
  second :: nat
  microsecond :: nat

text \<open>\<^verbatim>\<open>now.strftime("%Y/%m/%d")\<close> and \<^verbatim>\<open>now.strftime("%Y%m%d_%H%M%S")\<close>.\<close>

definition strftime_date_path :: "datetime \<Rightarrow> string" where
  "strftime_date_path t =
     zfill 4 (show_nat (year t)) @ ''/'' @ zfill 2 (show_nat (month t)) @ ''/''
       @ zfill 2 (show_nat (day t))"

definition strftime_timestamp :: "datetime \<Rightarrow> string" where
  "strftime_timestamp t =
     zfill 4 (show_nat (year t)) @ zfill 2 (show_nat (month t)) @ zfill 2 (show_nat (day t))
       @ ''_'' @ zfill 2 (show_nat (hour t)) @ zfill 2 (show_nat (minute t))
       @ zfill 2 (show_nat (second t))"

text \<open>\<^verbatim>\<open>now.isoformat()\<close>: the microseconds are printed only when they are not zero.\<close>

definition isoformat :: "datetime \<Rightarrow> string" where
  "isoformat t =
     zfill 4 (show_nat (year t)) @ ''-'' @ zfill 2 (show_nat (month t)) @ ''-''
       @ zfill 2 (show_nat (day t)) @ ''T'' @ zfill 2 (show_nat (hour t)) @ '':''
       @ zfill 2 (show_nat (minute t)) @ '':'' @ zfill 2 (show_nat (second t))
       @ (if microsecond t = 0 then [] else ''.'' @ zfill 6 (show_nat (microsecond t)))"

section \<open>Artifact naming (lines 31 to 36)\<close>

definition zip_name :: "string option \<Rightarrow> datetime \<Rightarrow> string" where
  "zip_name project now = fstr project @ ''_'' @ strftime_timestamp now @ ''.zip''"

text \<open>\<^verbatim>\<open>Path(BACKUP_DIR)\<close> raises \<^verbatim>\<open>TypeError\<close> when the variable is not set.\<close>

definition zip_dir :: "string option \<Rightarrow> datetime \<Rightarrow> error + pure_path" where
  "zip_dir backup_dir now =
     (case backup_dir of
        None \<Rightarrow> Inl TypeError
      | Some b \<Rightarrow> Inr (truediv (Path b) (strftime_date_path now)))"

definition zip_path :: "string option \<Rightarrow> string option \<Rightarrow> datetime \<Rightarrow> error + pure_path" where
  "zip_path backup_dir project now =
     (case zip_dir backup_dir now of
        Inl e \<Rightarrow> Inl e
      | Inr d \<Rightarrow> Inr (truediv d (zip_name project now)))"

section \<open>Configuration (lines 13 to 28)\<close>

text \<open>
  What \<^verbatim>\<open>os.getenv\<close> finds. A text variable is \<open>None\<close> when it is not set. For the three
  retention windows the record holds what \<^verbatim>\<open>int(...)\<close> makes of the text: the variable is
  not set, its text is an integer literal, or \<^verbatim>\<open>int\<close> rejects it with \<^verbatim>\<open>ValueError\<close>.
\<close>

datatype env_int = Unset | Int_text int | Bad_text

record environ =
  env_PROJECT_NAME :: "string option"
  env_SOURCE_DIR :: "string option"
  env_BACKUP_DIR :: "string option"
  env_LOG_FILE :: "string option"
  env_RETENTION_DAYS :: env_int
  env_RETENTION_WEEKS :: env_int
  env_RETENTION_MONTHS :: env_int
  env_RCLONE_REMOTE :: "string option"
  env_RCLONE_FOLDER :: "string option"
  env_WEBHOOK_URL :: "string option"
  env_NOTIFY :: "string option"

text \<open>The module's global variables once lines 16 to 28 have run.\<close>

record config =
  PROJECT_NAME :: "string option"
  SOURCE_DIR :: "string option"
  BACKUP_DIR :: "string option"
  LOG_FILE :: "string option"
  RETENTION_DAYS :: int
  RETENTION_WEEKS :: int
  RETENTION_MONTHS :: int
  RCLONE_REMOTE :: "string option"
  RCLONE_FOLDER :: "string option"
  WEBHOOK_URL :: "string option"
  NOTIFY :: bool

text \<open>\<^verbatim>\<open>int(os.getenv(name, default))\<close>.\<close>

definition getenv_int :: "env_int \<Rightarrow> int \<Rightarrow> error + int" where
  "getenv_int v dflt =
     (case v of Unset \<Rightarrow> Inr dflt | Int_text n \<Rightarrow> Inr n | Bad_text \<Rightarrow> Inl ValueError)"

text \<open>\<^verbatim>\<open>os.getenv("NOTIFY", "true").lower() == "true"\<close>.\<close>

definition getenv_notify :: "string option \<Rightarrow> bool" where
  "getenv_notify v = (lower (case v of None \<Rightarrow> ''true'' | Some s \<Rightarrow> s) = ''true'')"

definition load_config :: "environ \<Rightarrow> error + config" where
  "load_config env =
     (case getenv_int (env_RETENTION_DAYS env) 7 of
        Inl e \<Rightarrow> Inl e
      | Inr d \<Rightarrow>
     (case getenv_int (env_RETENTION_WEEKS env) 4 of
        Inl e \<Rightarrow> Inl e
      | Inr w \<Rightarrow>
     (case getenv_int (env_RETENTION_MONTHS env) 3 of
        Inl e \<Rightarrow> Inl e
      | Inr m \<Rightarrow>
          Inr \<lparr>PROJECT_NAME = env_PROJECT_NAME env, SOURCE_DIR = env_SOURCE_DIR env,
               BACKUP_DIR = env_BACKUP_DIR env, LOG_FILE = env_LOG_FILE env,
               RETENTION_DAYS = d, RETENTION_WEEKS = w, RETENTION_MONTHS = m,
               RCLONE_REMOTE = env_RCLONE_REMOTE env, RCLONE_FOLDER = env_RCLONE_FOLDER env,
               WEBHOOK_URL = env_WEBHOOK_URL env, NOTIFY = getenv_notify (env_NOTIFY env)\<rparr>)))"

section \<open>The state the script acts on\<close>

text \<open>
  One regular file below \<^verbatim>\<open>BACKUP_DIR\<close> as \<^verbatim>\<open>os.walk\<close> reports it: the directory, the
  name, and the modification time that \<^verbatim>\<open>stat()\<close> returns (seconds since the epoch), or
  \<open>None\<close> when \<^verbatim>\<open>stat()\<close> raises, as it does for a dangling symbolic link. Timestamps are
  exact rationals here; the script holds them as doubles.
\<close>

record file_entry =
  dirpath :: string
  filename :: string
  st_mtime :: "rat option"

datatype log_line =
  Backup_line string string
| Deleted_line string

datatype console_line =
  Info_creating string
| Info_uploading
| Info_webhook_sent
| Error_webhook
| Info_deleted string
| Error_delete string

record payload =
  project :: "string option"
  date :: string
  status :: string

text \<open>
  \<open>files\<close> are the regular files below \<^verbatim>\<open>BACKUP_DIR\<close> in the order \<^verbatim>\<open>os.walk\<close> lists them,
  \<open>history\<close> the lines appended to \<^verbatim>\<open>LOG_FILE\<close> (without their leading clock reading),
  \<open>console\<close> what was printed, \<open>commands\<close> the shell commands handed to
  \<^verbatim>\<open>subprocess.call\<close>, and \<open>notify_calls\<close> the calls of \<^verbatim>\<open>subprocess.run\<close> that hand a
  payload and \<^verbatim>\<open>WEBHOOK_URL\<close> to curl.
\<close>

record state =
  files :: "file_entry list"
  history :: "log_line list"
  console :: "console_line list"
  commands :: "string list"
  notify_calls :: "(string option \<times> payload) list"

text \<open>
  What the world outside the script decides during one run: the clock at line 31, whether
  \<^verbatim>\<open>os.makedirs\<close>, opening the archive and writing into it raise, the modification time
  of the new archive,
  the exit code of rclone, which writes to the log raise, whether starting curl raises,
  the clock at line 81, and which files \<^verbatim>\<open>unlink()\<close> fails on.
\<close>

record world =
  now :: datetime
  makedirs_raises :: bool
  zip_open_raises :: bool
  zip_write_raises :: bool
  archive_mtime :: rat
  upload_exit :: int
  log_raises :: "log_line \<Rightarrow> bool"
  curl_raises :: bool
  now_ts :: rat
  unlink_raises :: "file_entry \<Rightarrow> bool"

section \<open>History log\<close>

text \<open>
  \<^verbatim>\<open>with open(LOG_FILE, "a") as log: log.write(line)\<close>. \<^verbatim>\<open>open(None, "a")\<close> raises
  \<^verbatim>\<open>TypeError\<close>; a path that cannot be opened or written raises \<^verbatim>\<open>OSError\<close>.
\<close>

definition append_log :: "config \<Rightarrow> world \<Rightarrow> log_line \<Rightarrow> state \<Rightarrow> error option \<times> state" where
  "append_log cfg w line s =
     (case LOG_FILE cfg of
        None \<Rightarrow> (Some TypeError, s)
      | Some p \<Rightarrow>
          if log_raises w line then (Some OSError, s)
          else (None, s\<lparr>history := history s @ [line]\<rparr>))"

section \<open>Retention cleanup (lines 80 to 99)\<close>

text \<open>\<^verbatim>\<open>file_path = Path(dirpath) / file\<close>.\<close>

definition file_path :: "file_entry \<Rightarrow> pure_path" where
  "file_path f = truediv (Path (dirpath f)) (filename f)"

text \<open>\<^verbatim>\<open>age_days = (now_ts - file_path.stat().st_mtime) / (3600 * 24)\<close>.\<close>

definition age_days :: "rat \<Rightarrow> rat \<Rightarrow> rat" where
  "age_days ts mtime = (ts - mtime) / (3600 * 24)"

text \<open>
  Lines 89 to 95, the \<^verbatim>\<open>try\<close> block: unlink the file, append the log line, print; any
  exception raised on the way is caught and reported on the console. A log write that
  fails after the unlink leaves the file deleted.
\<close>

definition try_unlink :: "config \<Rightarrow> world \<Rightarrow> file_entry \<Rightarrow> state \<Rightarrow> state" where
  "try_unlink cfg w f s =
     (if unlink_raises w f
      then s\<lparr>console := console s @ [Error_delete (path_str (file_path f))]\<rparr>
      else
        (case append_log cfg w (Deleted_line (path_name (file_path f)))
                (s\<lparr>files := removeAll f (files s)\<rparr>) of
           (Some e, s1) \<Rightarrow> s1\<lparr>console := console s1 @ [Error_delete (path_str (file_path f))]\<rparr>
         | (None, s1) \<Rightarrow> s1\<lparr>console := console s1 @ [Info_deleted (path_str (file_path f))]\<rparr>))"

text \<open>
  Lines 84 to 88, what the loop body decides for one file before it reaches the \<^verbatim>\<open>try\<close>
  block: \<open>Skip\<close> is the \<^verbatim>\<open>continue\<close> for a suffix other than \<^verbatim>\<open>.zip\<close>, \<open>Delete\<close> an age above
  \<^verbatim>\<open>max_days\<close>, \<open>Keep\<close> any other archive. \<^verbatim>\<open>stat()\<close> stands outside the \<^verbatim>\<open>try\<close> block, so
  its exception leaves the function.
\<close>

datatype decision = Skip | Keep | Delete

definition decide :: "rat \<Rightarrow> int \<Rightarrow> file_entry \<Rightarrow> error + decision" where
  "decide ts max_days f =
     (if path_suffix (file_path f) \<noteq> ''.zip'' then Inr Skip
      else
        (case st_mtime f of
           None \<Rightarrow> Inl OSError
         | Some mtime \<Rightarrow>
             if age_days ts mtime > of_int max_days then Inr Delete else Inr Keep))"

text \<open>The two nested loops of \<^verbatim>\<open>delete_old_files\<close> over the files that \<^verbatim>\<open>os.walk\<close> lists.\<close>

fun walk_loop :: "config \<Rightarrow> world \<Rightarrow> int \<Rightarrow> file_entry list \<Rightarrow> state \<Rightarrow> error option \<times> state" where
  "walk_loop cfg w max_days [] s = (None, s)"
| "walk_loop cfg w max_days (f # fs) s =
     (case decide (now_ts w) max_days f of
        Inl e \<Rightarrow> (Some e, s)
      | Inr Delete \<Rightarrow> walk_loop cfg w max_days fs (try_unlink cfg w f s)
      | Inr _ \<Rightarrow> walk_loop cfg w max_days fs s)"

text \<open>
  \<^verbatim>\<open>delete_old_files(path, max_days)\<close>. Its only call passes \<^verbatim>\<open>BACKUP_DIR\<close> as \<^verbatim>\<open>path\<close>; the
  files below it are the \<open>files\<close> of the state.
\<close>

definition delete_old_files :: "config \<Rightarrow> world \<Rightarrow> int \<Rightarrow> state \<Rightarrow> error option \<times> state" where
  "delete_old_files cfg w max_days s = walk_loop cfg w max_days (files s) s"

text \<open>Line 98.\<close>

definition max_age_days :: "config \<Rightarrow> int" where
  "max_age_days cfg =
     max (RETENTION_DAYS cfg) (max (RETENTION_WEEKS cfg * 7) (RETENTION_MONTHS cfg * 30))"

definition apply_retention :: "config \<Rightarrow> world \<Rightarrow> state \<Rightarrow> error option \<times> state" where
  "apply_retention cfg w s = delete_old_files cfg w (max_age_days cfg) s"

section \<open>The steps before the cleanup\<close>

subsection \<open>Archive creation and upload (lines 38 to 53)\<close>

definition parent :: "pure_path \<Rightarrow> pure_path" where
  "parent p = p\<lparr>parts := butlast (parts p)\<rparr>"

definition is_relative_to :: "pure_path \<Rightarrow> pure_path \<Rightarrow> bool" where
  "is_relative_to p base = (root p = root base \<and> prefix (parts base) (parts p))"

text \<open>
  The file that \<^verbatim>\<open>zipfile.ZipFile(zip_path, "w")\<close> creates, as a later \<^verbatim>\<open>os.walk\<close> reports it.
  A file of the same path is replaced.
\<close>

definition archive_entry :: "pure_path \<Rightarrow> rat \<Rightarrow> file_entry" where
  "archive_entry zp mtime =
     \<lparr>dirpath = path_str (parent zp), filename = path_name zp, st_mtime = Some mtime\<rparr>"

definition add_file :: "file_entry \<Rightarrow> file_entry list \<Rightarrow> file_entry list" where
  "add_file e fs =
     filter (\<lambda>g. (dirpath g, filename g) \<noteq> (dirpath e, filename e)) fs @ [e]"

text \<open>
  Lines 43 to 48. Opening the archive creates the file; \<^verbatim>\<open>os.walk(SOURCE_DIR)\<close> raises
  \<^verbatim>\<open>TypeError\<close> when \<^verbatim>\<open>SOURCE_DIR\<close> is not set, and reading a source file may fail. The new
  file shows among \<open>files\<close> when it lies below \<^verbatim>\<open>BACKUP_DIR\<close>.
\<close>

definition create_archive :: "config \<Rightarrow> world \<Rightarrow> pure_path \<Rightarrow> pure_path \<Rightarrow> state \<Rightarrow> error option \<times> state" where
  "create_archive cfg w base zp s =
     (if zip_open_raises w then (Some OSError, s)
      else
        (let s1 = (if is_relative_to zp base
                   then s\<lparr>files := add_file (archive_entry zp (archive_mtime w)) (files s)\<rparr>
                   else s)
         in case SOURCE_DIR cfg of
              None \<Rightarrow> (Some TypeError, s1)
            | Some src \<Rightarrow> if zip_write_raises w then (Some OSError, s1) else (None, s1)))"

text \<open>Line 51: the command line for rclone, the archive's path in single quotes.\<close>

definition upload_cmd :: "config \<Rightarrow> pure_path \<Rightarrow> string" where
  "upload_cmd cfg zp =
     ''rclone copy '' @ [CHR 0x27] @ path_str zp @ [CHR 0x27] @ '' ''
       @ fstr (RCLONE_REMOTE cfg) @ '':'' @ fstr (RCLONE_FOLDER cfg)"

subsection \<open>Webhook (lines 62 to 77)\<close>

text \<open>
  The body of the \<^verbatim>\<open>if\<close> at line 62: build the payload and call \<^verbatim>\<open>subprocess.run\<close> on
  curl. A \<^verbatim>\<open>WEBHOOK_URL\<close> that is not set, or a curl that cannot be started, makes the call
  raise; the \<^verbatim>\<open>except\<close> clause catches it and prints the failure.
\<close>

definition send_webhook :: "config \<Rightarrow> world \<Rightarrow> state \<Rightarrow> state" where
  "send_webhook cfg w s =
     (let p = \<lparr>project = PROJECT_NAME cfg, date = isoformat (now w),
                status = ''BackupSuccessful''\<rparr>;
          s1 = s\<lparr>notify_calls := notify_calls s @ [(WEBHOOK_URL cfg, p)]\<rparr>
      in if WEBHOOK_URL cfg = None \<or> curl_raises w
         then s1\<lparr>console := console s1 @ [Error_webhook]\<rparr>
         else s1\<lparr>console := console s1 @ [Info_webhook_sent]\<rparr>)"

definition notify_step :: "config \<Rightarrow> int \<Rightarrow> world \<Rightarrow> state \<Rightarrow> state" where
  "notify_step cfg upload_status w s =
     (if NOTIFY cfg \<and> upload_status = 0 then send_webhook cfg w s else s)"

section \<open>The script from top to bottom\<close>

text \<open>An exception that propagates ends the script: the steps after it do not run.\<close>

definition and_then ::
  "error option \<times> state \<Rightarrow> (state \<Rightarrow> error option \<times> state) \<Rightarrow> error option \<times> state" where
  "and_then r k = (case r of (Some e, s) \<Rightarrow> (Some e, s) | (None, s) \<Rightarrow> k s)"

text \<open>Lines 55 to 59: the history line of this backup. No \<^verbatim>\<open>try\<close> surrounds the write.\<close>

definition log_backup :: "config \<Rightarrow> world \<Rightarrow> pure_path \<Rightarrow> int \<Rightarrow> state \<Rightarrow> error option \<times> state" where
  "log_backup cfg w zp upload_status s =
     (let status_text = (if upload_status = 0 then ''Success'' else ''Failed'')
      in append_log cfg w (Backup_line (path_name zp) status_text) s)"

text \<open>Lines 31 to 99 with the globals loaded.\<close>

definition main :: "config \<Rightarrow> world \<Rightarrow> state \<Rightarrow> error option \<times> state" where
  "main cfg w s =
     (case BACKUP_DIR cfg of
        None \<Rightarrow> (Some TypeError, s)
      | Some b \<Rightarrow>
          (case zip_path (BACKUP_DIR cfg) (PROJECT_NAME cfg) (now w) of
             Inl e \<Rightarrow> (Some e, s)
           | Inr zp \<Rightarrow>
               if makedirs_raises w then (Some OSError, s)
               else
                 and_then
                   (create_archive cfg w (Path b) zp
                      (s\<lparr>console := console s @ [Info_creating (path_str zp)]\<rparr>))
                   (\<lambda>s1.
                      let s2 = s1\<lparr>console := console s1 @ [Info_uploading],
                                  commands := commands s1 @ [upload_cmd cfg zp]\<rparr>;
                          upload_status = upload_exit w
                      in and_then (log_backup cfg w zp upload_status s2)
                           (\<lambda>s3. apply_retention cfg w (notify_step cfg upload_status w s3)))))"

definition run :: "environ \<Rightarrow> world \<Rightarrow> state \<Rightarrow> error option \<times> state" where
  "run env w s = (case load_config env of Inl e \<Rightarrow> (Some e, s) | Inr cfg \<Rightarrow> main cfg w s)"

section \<open>Notions used to state the properties\<close>

text \<open>
  The files for which \<^verbatim>\<open>delete_old_files\<close> enters its \<^verbatim>\<open>try\<close> block, in the order of the
  scan: those that \<open>decide\<close> marks \<open>Delete\<close>, up to the first file whose \<^verbatim>\<open>stat()\<close> raises.
\<close>

fun attempted :: "rat \<Rightarrow> int \<Rightarrow> file_entry list \<Rightarrow> file_entry list" where
  "attempted ts c [] = []"
| "attempted ts c (f # fs) =
     (case decide ts c f of
        Inl e \<Rightarrow> []
      | Inr Delete \<Rightarrow> f # attempted ts c fs
      | Inr _ \<Rightarrow> attempted ts c fs)"

text \<open>
  The artifact path layout in the words of the specification,
  \<^verbatim>\<open><BACKUP_DIR>/<YYYY>/<MM>/<DD>/<PROJECT_NAME>_<YYYYMMDD_HHMMSS>.zip\<close>: the path of
  \<^verbatim>\<open>BACKUP_DIR\<close>, then the directories of the year, the month and the day, then the file
  name read as a relative path.
\<close>

definition layout :: "string \<Rightarrow> string \<Rightarrow> datetime \<Rightarrow> pure_path" where
  "layout backup_dir project_name t =
     \<lparr>root = root (Path backup_dir),
      parts = parts (Path backup_dir)
        @ [zfill 4 (show_nat (year t)), zfill 2 (show_nat (month t)), zfill 2 (show_nat (day t))]
        @ parts (Path (project_name @ ''_'' @ zfill 4 (show_nat (year t)) @ zfill 2 (show_nat (month t))
            @ zfill 2 (show_nat (day t)) @ ''_'' @ zfill 2 (show_nat (hour t))
            @ zfill 2 (show_nat (minute t)) @ zfill 2 (show_nat (second t)) @ ''.zip''))\<rparr>"

text \<open>
  A concrete run for the scenarios: no retention variable is set, nothing fails, the
  clock at the scan reads \<open>1709649003\<close>, and \<open>aged k\<close> is an archive modified exactly \<open>k\<close>
  days before the scan.
\<close>

definition example_env :: environ where
  "example_env =
     \<lparr>env_PROJECT_NAME = Some ''site'', env_SOURCE_DIR = Some ''/srv/site'',
      env_BACKUP_DIR = Some ''/backups'', env_LOG_FILE = Some ''/var/log/backup.log'',
      env_RETENTION_DAYS = Unset, env_RETENTION_WEEKS = Unset, env_RETENTION_MONTHS = Unset,
      env_RCLONE_REMOTE = Some ''gdrive'', env_RCLONE_FOLDER = Some ''backups'',
      env_WEBHOOK_URL = Some ''https://example.org/hook'', env_NOTIFY = None\<rparr>"

definition example_config :: config where
  "example_config =
     \<lparr>PROJECT_NAME = Some ''site'', SOURCE_DIR = Some ''/srv/site'',
      BACKUP_DIR = Some ''/backups'', LOG_FILE = Some ''/var/log/backup.log'',
      RETENTION_DAYS = 7, RETENTION_WEEKS = 4, RETENTION_MONTHS = 3,
      RCLONE_REMOTE = Some ''gdrive'', RCLONE_FOLDER = Some ''backups'',
      WEBHOOK_URL = Some ''https://example.org/hook'', NOTIFY = True\<rparr>"

definition example_world :: world where
  "example_world =
     \<lparr>now = \<lparr>year = 2024, month = 3, day = 5, hour = 14, minute = 30, second = 0,
             microsecond = 0\<rparr>,
      makedirs_raises = False, zip_open_raises = False, zip_write_raises = False,
      archive_mtime = 1709649001, upload_exit = 0, log_raises = (\<lambda>l. False),
      curl_raises = False, now_ts = 1709649003, unlink_raises = (\<lambda>f. False)\<rparr>"

definition aged :: "nat \<Rightarrow> file_entry" where
  "aged k =
     \<lparr>dirpath = ''/backups/old'', filename = ''site_'' @ show_nat k @ ''.zip'',
      st_mtime = Some (1709649003 - of_nat k * 86400)\<rparr>"

definition example_state :: state where
  "example_state =
     \<lparr>files = [aged 1, aged 8, aged 35, aged 100], history = [], console = [], commands = [],
      notify_calls = []\<rparr>"

text \<open>
  A second tree: an old text file among the archives, and a world in which the archive
  aged 100 days cannot be unlinked. \<open>renamed\<close> has the modification time of \<open>aged 100\<close>
  under a name that carries a date in the future.
\<close>

definition readme :: file_entry where
  "readme =
     \<lparr>dirpath = ''/backups/old'', filename = ''README.txt'',
      st_mtime = Some (1709649003 - 400 * 86400)\<rparr>"

definition renamed :: file_entry where
  "renamed =
     \<lparr>dirpath = ''/backups/2099/01/01'', filename = ''site_20990101_000000.zip'',
      st_mtime = Some (1709649003 - 100 * 86400)\<rparr>"

definition crowded_state :: state where
  "crowded_state =
     \<lparr>files = [readme, aged 1, aged 100, renamed, aged 200], history = [], console = [],
      commands = [], notify_calls = []\<rparr>"

definition stubborn_world :: world where
  "stubborn_world = example_world\<lparr>unlink_raises := (\<lambda>f. filename f = ''site_100.zip'')\<rparr>"

text \<open>
  A third tree: between two old archives \<^verbatim>\<open>os.walk\<close> lists an entry on which \<^verbatim>\<open>stat()\<close>
  raises, a file that was removed after the directory was listed or a symbolic link whose
  target is gone.
\<close>

definition vanished :: file_entry where
  "vanished = \<lparr>dirpath = ''/backups/old'', filename = ''site_gone.zip'', st_mtime = None\<rparr>"

definition broken_state :: state where
  "broken_state =
     \<lparr>files = [aged 100, vanished, aged 200], history = [], console = [], commands = [],
      notify_calls = []\<rparr>"

section \<open>The retention pass\<close>

subsection \<open>The loop, one file at a time\<close>

lemma isl_decide: "isl (decide ts c f) = (path_suffix (file_path f) = ''.zip'' \<and> st_mtime f = None)"
  by (simp add: decide_def split: option.splits)

lemma attempted_Cons:
  "attempted ts c (f # fs) =
     (if isl (decide ts c f) then []
      else if decide ts c f = Inr Delete then f # attempted ts c fs
      else attempted ts c fs)"
  by (cases "decide ts c f"; simp split: decision.splits)

lemma walk_loop_Cons:
  "walk_loop cfg w c (f # fs) s =
     (if isl (decide (now_ts w) c f) then (Some OSError, s)
      else if decide (now_ts w) c f = Inr Delete then walk_loop cfg w c fs (try_unlink cfg w f s)
      else walk_loop cfg w c fs s)"
  by (cases "decide (now_ts w) c f"; simp split: decision.splits)
     (simp add: decide_def split: if_splits option.splits)

declare attempted.simps(2) [simp del] walk_loop.simps(2) [simp del]

lemma files_try_unlink:
  "files (try_unlink cfg w f s) = (if unlink_raises w f then files s else removeAll f (files s))"
  by (simp add: try_unlink_def append_log_def split: option.splits)

lemma files_walk_loop:
  "files (snd (walk_loop cfg w c xs s)) =
     filter (\<lambda>g. g \<notin> set (filter (\<lambda>f. \<not> unlink_raises w f) (attempted (now_ts w) c xs))) (files s)"
proof (induction xs arbitrary: s)
  case Nil
  then show ?case by simp
next
  case (Cons f fs)
  show ?case
    using Cons.IH [of s] Cons.IH [of "try_unlink cfg w f s"]
    by (auto simp add: walk_loop_Cons attempted_Cons files_try_unlink removeAll_filter_not_eq
        intro: filter_cong)
qed

lemma fst_walk_loop:
  "fst (walk_loop cfg w c xs s) =
     (if \<exists>f \<in> set xs. path_suffix (file_path f) = ''.zip'' \<and> st_mtime f = None
      then Some OSError else None)"
  by (induction xs arbitrary: s) (auto simp: walk_loop_Cons isl_decide)

lemma walk_loop_no_attempt:
  "attempted (now_ts w) c xs = [] \<Longrightarrow> snd (walk_loop cfg w c xs s) = s"
  by (induction xs arbitrary: s) (auto simp: walk_loop_Cons attempted_Cons split: if_splits)

lemma set_attempted_subset:
  "set (attempted ts c xs) \<subseteq> {f \<in> set xs. decide ts c f = Inr Delete}"
  by (induction xs) (auto simp: attempted_Cons)

lemma attempted_all:
  "\<forall>f \<in> set xs. \<not> isl (decide ts c f) \<Longrightarrow>
   attempted ts c xs = filter (\<lambda>f. decide ts c f = Inr Delete) xs"
  by (induction xs) (auto simp: attempted_Cons)

lemma second_pass:
  assumes "\<forall>f \<in> set xs. decide ts2 c f = Inr Delete \<longrightarrow> decide ts c f = Inr Delete"
    and "set (attempted ts c xs) \<subseteq> D"
    and "\<forall>g \<in> D. decide ts c g = Inr Delete"
  shows "attempted ts2 c (filter (\<lambda>g. g \<notin> D) xs) = []"
  using assms
proof (induction xs)
  case Nil
  then show ?case by simp
next
  case (Cons f fs)
  show ?case
  proof (cases "isl (decide ts c f)")
    case True
    then have "f \<notin> D" using Cons.prems(3) by auto
    moreover have "isl (decide ts2 c f)" using True by (simp add: isl_decide)
    ultimately show ?thesis by (simp add: attempted_Cons)
  next
    case False
    then have IH: "attempted ts2 c (filter (\<lambda>g. g \<notin> D) fs) = []"
      using Cons by (auto simp: attempted_Cons split: if_splits)
    show ?thesis
    proof (cases "f \<in> D")
      case True
      then show ?thesis using IH by simp
    next
      case nD: False
      then have "decide ts c f \<noteq> Inr Delete"
        using Cons.prems(2) False by (auto simp: attempted_Cons)
      then have "decide ts2 c f \<noteq> Inr Delete" using Cons.prems(1) by auto
      then show ?thesis using nD IH by (simp add: attempted_Cons)
    qed
  qed
qed


lemma kept_walk_loop:
  "g \<in> set (files s) \<Longrightarrow> decide (now_ts w) c g \<noteq> Inr Delete \<Longrightarrow>
   g \<in> set (files (snd (walk_loop cfg w c xs s)))"
  using set_attempted_subset [of "now_ts w" c xs] by (auto simp: files_walk_loop)

lemma decide_Delete_iff:
  "decide ts c f = Inr Delete \<longleftrightarrow>
     path_suffix (file_path f) = ''.zip'' \<and> (\<exists>m. st_mtime f = Some m \<and> age_days ts m > of_int c)"
  by (auto simp: decide_def split: option.splits)

lemma console_try_unlink:
  "unlink_raises w f \<Longrightarrow>
   console (try_unlink cfg w f s) = console s @ [Error_delete (path_str (file_path f))]"
  by (simp add: try_unlink_def)

lemma console_try_unlink_grows: "\<exists>l. console (try_unlink cfg w f s) = console s @ [l]"
  by (simp add: try_unlink_def append_log_def split: option.splits)

lemma console_walk_loop_grows:
  "set (console s) \<subseteq> set (console (snd (walk_loop cfg w c xs s)))"
proof (induction xs arbitrary: s)
  case Nil
  then show ?case by simp
next
  case (Cons f fs)
  obtain l where l: "console (try_unlink cfg w f s) = console s @ [l]"
    using console_try_unlink_grows by blast
  show ?case
    using Cons.IH [of s] Cons.IH [of "try_unlink cfg w f s"] l
    by (auto simp: walk_loop_Cons)
qed

lemma console_walk_loop_error:
  assumes "f \<in> set (attempted (now_ts w) c xs)" and "unlink_raises w f"
  shows "Error_delete (path_str (file_path f)) \<in> set (console (snd (walk_loop cfg w c xs s)))"
  using assms
proof (induction xs arbitrary: s)
  case Nil
  then show ?case by simp
next
  case (Cons g gs)
  show ?case
  proof (cases "isl (decide (now_ts w) c g)")
    case True
    then show ?thesis using Cons.prems by (simp add: attempted_Cons)
  next
    case False
    show ?thesis
    proof (cases "decide (now_ts w) c g = Inr Delete")
      case nd: False
      then show ?thesis using False Cons by (simp add: attempted_Cons walk_loop_Cons)
    next
      case True
      show ?thesis
      proof (cases "f = g")
        case True
        have "Error_delete (path_str (file_path f)) \<in> set (console (try_unlink cfg w g s))"
          using True Cons.prems(2) by (simp add: console_try_unlink)
        then show ?thesis
          using console_walk_loop_grows [of "try_unlink cfg w g s" cfg w c gs] False
            \<open>decide (now_ts w) c g = Inr Delete\<close>
          by (auto simp: walk_loop_Cons)
      next
        case ne: False
        then have "f \<in> set (attempted (now_ts w) c gs)"
          using Cons.prems(1) False True by (simp add: attempted_Cons)
        then show ?thesis
          using Cons.IH [of "try_unlink cfg w g s"] Cons.prems(2) False True
          by (simp add: walk_loop_Cons)
      qed
    qed
  qed
qed

lemma files_delete_old_files:
  assumes "\<forall>f \<in> set (files s). path_suffix (file_path f) = ''.zip'' \<longrightarrow> st_mtime f \<noteq> None"
  shows "files (snd (delete_old_files cfg w c s)) =
           filter (\<lambda>f. \<not> (decide (now_ts w) c f = Inr Delete \<and> \<not> unlink_raises w f)) (files s)"
proof -
  have ok: "\<forall>f \<in> set (files s). \<not> isl (decide (now_ts w) c f)"
    using assms by (auto simp: isl_decide)
  have att: "attempted (now_ts w) c (files s) =
      filter (\<lambda>f. decide (now_ts w) c f = Inr Delete) (files s)"
    using ok by (rule attempted_all)
  show ?thesis
    unfolding delete_old_files_def files_walk_loop att
    by (rule filter_cong) auto
qed

subsection \<open>Which files a pass deletes\<close>

text \<open>
  Claim C1. Take any population of files below the scanned root that all carry the suffix
  \<^verbatim>\<open>.zip\<close>, each with a modification time, and a pass in which no \<^verbatim>\<open>unlink()\<close> fails. The
  pass then runs to its end, the files left are exactly those whose age in days is at most
  the cutoff \<open>c\<close>, and the files removed are exactly those whose age exceeds \<open>c\<close>. In the
  scenario of the specification no retention variable is set, so the windows are 7, 4 and
  3, the cutoff is 90, and of the files aged 1, 8, 35 and 100 days only the last is
  deleted. Ages are computed on exact rationals.
\<close>

theorem retention_survivors:
  assumes "\<forall>f \<in> set (files s). path_suffix (file_path f) = ''.zip''"
    and "\<forall>f \<in> set (files s). st_mtime f \<noteq> None"
    and "\<forall>f \<in> set (files s). \<not> unlink_raises w f"
  shows "fst (delete_old_files cfg w c s) = None
       \<and> files (snd (delete_old_files cfg w c s)) =
           filter (\<lambda>f. \<exists>m. st_mtime f = Some m \<and> age_days (now_ts w) m \<le> of_int c) (files s)
       \<and> filter (\<lambda>f. f \<notin> set (files (snd (delete_old_files cfg w c s)))) (files s) =
           filter (\<lambda>f. \<exists>m. st_mtime f = Some m \<and> age_days (now_ts w) m > of_int c) (files s)
       \<and> load_config example_env = Inr example_config
       \<and> max_age_days example_config = 90
       \<and> files (snd (apply_retention example_config example_world example_state)) =
           [aged 1, aged 8, aged 35]"
proof -
  have ok: "\<forall>f \<in> set (files s). \<not> isl (decide (now_ts w) c f)"
    using assms by (auto simp: isl_decide)
  have att: "attempted (now_ts w) c (files s) =
      filter (\<lambda>f. decide (now_ts w) c f = Inr Delete) (files s)"
    using ok by (rule attempted_all)
  have 1: "fst (delete_old_files cfg w c s) = None"
    using assms by (auto simp: delete_old_files_def fst_walk_loop)
  have 2: "files (snd (delete_old_files cfg w c s)) =
           filter (\<lambda>f. \<exists>m. st_mtime f = Some m \<and> age_days (now_ts w) m \<le> of_int c) (files s)"
    unfolding delete_old_files_def files_walk_loop att
    by (rule filter_cong) (use assms in \<open>auto simp: decide_Delete_iff\<close>)
  have 3: "filter (\<lambda>f. f \<notin> set (files (snd (delete_old_files cfg w c s)))) (files s) =
           filter (\<lambda>f. \<exists>m. st_mtime f = Some m \<and> age_days (now_ts w) m > of_int c) (files s)"
    unfolding 2 by (rule filter_cong) (use assms in auto)
  have 4: "load_config example_env = Inr example_config"
    by code_simp
  have 5: "max_age_days example_config = 90"
    by code_simp
  have 6: "files (snd (apply_retention example_config example_world example_state)) =
           [aged 1, aged 8, aged 35]"
    by code_simp
  from 1 2 3 4 5 6 show ?thesis by blast
qed

theorem retention_survivors_witness:
  "list_all (\<lambda>f. path_suffix (file_path f) = ''.zip'' \<and> st_mtime f \<noteq> None
                 \<and> \<not> unlink_raises example_world f) (files example_state)
   \<and> fst (delete_old_files example_config example_world 90 example_state) = None
   \<and> files (snd (delete_old_files example_config example_world 90 example_state)) =
       [aged 1, aged 8, aged 35]"
proof -
  have h: "list_all (\<lambda>f. path_suffix (file_path f) = ''.zip'' \<and> st_mtime f \<noteq> None
                 \<and> \<not> unlink_raises example_world f) (files example_state)"
    by code_simp
  have h1: "\<forall>f \<in> set (files example_state). path_suffix (file_path f) = ''.zip''"
    and h2: "\<forall>f \<in> set (files example_state). st_mtime f \<noteq> None"
    and h3: "\<forall>f \<in> set (files example_state). \<not> unlink_raises example_world f"
    using h by (simp_all add: list_all_iff)
  have e: "filter (\<lambda>f. \<exists>m. st_mtime f = Some m \<and> age_days (now_ts example_world) m \<le> of_int 90)
             (files example_state) = [aged 1, aged 8, aged 35]"
    by (simp add: example_state_def example_world_def aged_def age_days_def)
  show ?thesis
    using h e retention_survivors [OF h1 h2 h3, of example_config 90] by simp
qed

subsection \<open>A second pass\<close>

text \<open>
  Claim C3. After a pass in which no \<^verbatim>\<open>unlink()\<close> failed, a second pass over the files that
  are left changes nothing: it removes no file, writes no log line and prints nothing.
  This holds when the second pass reads the same clock, and more generally whenever no
  file has crossed the cutoff between the two scans (the second hypothesis); the outcome
  of unlinking and logging in the second pass is left open.
\<close>

theorem retention_idempotent:
  assumes "\<forall>f \<in> set (files s). \<not> unlink_raises w1 f"
    and "\<forall>f \<in> set (files s).
           decide (now_ts w2) c f = Inr Delete \<longrightarrow> decide (now_ts w1) c f = Inr Delete"
  shows "snd (delete_old_files cfg2 w2 c (snd (delete_old_files cfg1 w1 c s))) =
         snd (delete_old_files cfg1 w1 c s)"
proof -
  let ?D = "set (attempted (now_ts w1) c (files s))"
  have nofail: "filter (\<lambda>f. \<not> unlink_raises w1 f) (attempted (now_ts w1) c (files s)) =
        attempted (now_ts w1) c (files s)"
    using assms(1) set_attempted_subset [of "now_ts w1" c "files s"]
    by (auto simp: filter_id_conv)
  have f1: "files (snd (delete_old_files cfg1 w1 c s)) = filter (\<lambda>g. g \<notin> ?D) (files s)"
    by (simp add: delete_old_files_def files_walk_loop nofail)
  have "attempted (now_ts w2) c (filter (\<lambda>g. g \<notin> ?D) (files s)) = []"
    using assms(2) set_attempted_subset [of "now_ts w1" c "files s"]
    by (intro second_pass [where ts = "now_ts w1"]) auto
  then show ?thesis
    by (simp add: delete_old_files_def [of cfg2] f1 walk_loop_no_attempt)
qed

theorem retention_idempotent_witness:
  "list_all (\<lambda>f. \<not> unlink_raises example_world f) (files example_state)
   \<and> files (snd (delete_old_files example_config example_world 90 example_state)) =
       [aged 1, aged 8, aged 35]
   \<and> snd (delete_old_files example_config example_world 90
            (snd (delete_old_files example_config example_world 90 example_state))) =
       snd (delete_old_files example_config example_world 90 example_state)"
proof -
  have h: "list_all (\<lambda>f. \<not> unlink_raises example_world f) (files example_state)"
    by code_simp
  have h1: "\<forall>f \<in> set (files example_state). \<not> unlink_raises example_world f"
    using h by (simp add: list_all_iff)
  have h2: "\<forall>f \<in> set (files example_state).
      decide (now_ts example_world) 90 f = Inr Delete \<longrightarrow>
      decide (now_ts example_world) 90 f = Inr Delete"
    by simp
  have e: "files (snd (delete_old_files example_config example_world 90 example_state)) =
       [aged 1, aged 8, aged 35]"
    by code_simp
  show ?thesis
    using h e retention_idempotent [OF h1 h2, of example_config example_config] by simp
qed

subsection \<open>Failing deletions\<close>

text \<open>
  What the \<^verbatim>\<open>try\<close> block of lines 89 to 95 achieves. Let \<^verbatim>\<open>unlink()\<close> fail on any set of
  files whatever. No exception of an \<^verbatim>\<open>unlink()\<close> or of a log write leaves the pass: the
  only exception that can end it is that of a \<^verbatim>\<open>stat()\<close> call on an archive. When every
  archive in the tree has a modification time, the pass runs to its end; it removes every
  file that is older than the cutoff and whose \<^verbatim>\<open>unlink()\<close> succeeds, keeps all others, and
  prints an error line for each file whose deletion failed.
\<close>

theorem deletion_failures_isolated:
  "(fst (delete_old_files cfg w c s) \<noteq> None \<longrightarrow>
      (\<exists>f \<in> set (files s). path_suffix (file_path f) = ''.zip'' \<and> st_mtime f = None))
   \<and> ((\<forall>f \<in> set (files s). path_suffix (file_path f) = ''.zip'' \<longrightarrow> st_mtime f \<noteq> None) \<longrightarrow>
        fst (delete_old_files cfg w c s) = None
        \<and> files (snd (delete_old_files cfg w c s)) =
            filter (\<lambda>f. \<not> (decide (now_ts w) c f = Inr Delete \<and> \<not> unlink_raises w f)) (files s)
        \<and> (\<forall>f \<in> set (files s). decide (now_ts w) c f = Inr Delete \<and> unlink_raises w f \<longrightarrow>
             Error_delete (path_str (file_path f))
               \<in> set (console (snd (delete_old_files cfg w c s)))))"
proof -
  have 0: "fst (delete_old_files cfg w c s) \<noteq> None \<longrightarrow>
      (\<exists>f \<in> set (files s). path_suffix (file_path f) = ''.zip'' \<and> st_mtime f = None)"
    by (simp add: delete_old_files_def fst_walk_loop)
  have rest: "fst (delete_old_files cfg w c s) = None
        \<and> files (snd (delete_old_files cfg w c s)) =
            filter (\<lambda>f. \<not> (decide (now_ts w) c f = Inr Delete \<and> \<not> unlink_raises w f)) (files s)
        \<and> (\<forall>f \<in> set (files s). decide (now_ts w) c f = Inr Delete \<and> unlink_raises w f \<longrightarrow>
             Error_delete (path_str (file_path f))
               \<in> set (console (snd (delete_old_files cfg w c s))))"
    if stat: "\<forall>f \<in> set (files s). path_suffix (file_path f) = ''.zip'' \<longrightarrow> st_mtime f \<noteq> None"
  proof -
    have ok: "\<forall>f \<in> set (files s). \<not> isl (decide (now_ts w) c f)"
      using stat by (auto simp: isl_decide)
    have att: "attempted (now_ts w) c (files s) =
        filter (\<lambda>f. decide (now_ts w) c f = Inr Delete) (files s)"
      using ok by (rule attempted_all)
    have 1: "fst (delete_old_files cfg w c s) = None"
      using stat by (auto simp: delete_old_files_def fst_walk_loop)
    have 2: "files (snd (delete_old_files cfg w c s)) =
        filter (\<lambda>f. \<not> (decide (now_ts w) c f = Inr Delete \<and> \<not> unlink_raises w f)) (files s)"
      using stat by (rule files_delete_old_files)
    have 3: "\<forall>f \<in> set (files s). decide (now_ts w) c f = Inr Delete \<and> unlink_raises w f \<longrightarrow>
        Error_delete (path_str (file_path f))
          \<in> set (console (snd (delete_old_files cfg w c s)))"
      unfolding delete_old_files_def
      using console_walk_loop_error [of _ w c "files s" cfg s] att by auto
    from 1 2 3 show ?thesis by blast
  qed
  from 0 rest show ?thesis by blast
qed

theorem deletion_failures_isolated_witness:
  "list_all (\<lambda>f. st_mtime f \<noteq> None) (files crowded_state)
   \<and> unlink_raises stubborn_world (aged 100)
   \<and> fst (delete_old_files example_config stubborn_world 90 crowded_state) = None
   \<and> files (snd (delete_old_files example_config stubborn_world 90 crowded_state)) =
       [readme, aged 1, aged 100]
   \<and> Error_delete ''/backups/old/site_100.zip''
       \<in> set (console (snd (delete_old_files example_config stubborn_world 90 crowded_state)))"
proof -
  have h: "list_all (\<lambda>f. st_mtime f \<noteq> None) (files crowded_state)"
    by code_simp
  have h1: "\<forall>f \<in> set (files crowded_state).
      path_suffix (file_path f) = ''.zip'' \<longrightarrow> st_mtime f \<noteq> None"
    using h by (simp add: list_all_iff)
  have u: "unlink_raises stubborn_world (aged 100)"
    by code_simp
  have e: "filter (\<lambda>f. \<not> (decide (now_ts stubborn_world) 90 f = Inr Delete
                          \<and> \<not> unlink_raises stubborn_world f)) (files crowded_state) =
           [readme, aged 1, aged 100]"
    by code_simp
  have m: "aged 100 \<in> set (files crowded_state)"
    by (simp add: crowded_state_def)
  have d: "decide (now_ts stubborn_world) 90 (aged 100) = Inr Delete"
    by code_simp
  have p: "path_str (file_path (aged 100)) = ''/backups/old/site_100.zip''"
    by code_simp
  have t: "fst (delete_old_files example_config stubborn_world 90 crowded_state) = None
        \<and> files (snd (delete_old_files example_config stubborn_world 90 crowded_state)) =
            filter (\<lambda>f. \<not> (decide (now_ts stubborn_world) 90 f = Inr Delete
                          \<and> \<not> unlink_raises stubborn_world f)) (files crowded_state)
        \<and> (\<forall>f \<in> set (files crowded_state).
              decide (now_ts stubborn_world) 90 f = Inr Delete \<and> unlink_raises stubborn_world f \<longrightarrow>
              Error_delete (path_str (file_path f))
                \<in> set (console (snd (delete_old_files example_config stubborn_world 90
                      crowded_state))))"
    using h1 deletion_failures_isolated [of example_config stubborn_world 90 crowded_state]
    by blast
  show ?thesis
    using h u e m d p t by auto
qed

text \<open>
  Claim C4 against the code. The isolation covers \<^verbatim>\<open>unlink()\<close> and the log write only. The
  \<^verbatim>\<open>stat()\<close> call of line 87 stands before the \<^verbatim>\<open>try\<close> of line 89, so a file that cannot be
  read ends the whole pass with its exception. In the tree below nothing fails on the
  archive aged 200 days and it is older than the cutoff of 90 days, yet it is still
  there after the pass, because the entry listed before it has vanished.
\<close>

theorem stat_failure_aborts_pass:
  "decide (now_ts example_world) 90 vanished = Inl OSError
   \<and> decide (now_ts example_world) 90 (aged 200) = Inr Delete
   \<and> \<not> unlink_raises example_world (aged 200)
   \<and> fst (delete_old_files example_config example_world 90 broken_state) = Some OSError
   \<and> files (snd (delete_old_files example_config example_world 90 broken_state)) =
       [vanished, aged 200]
   \<and> fst (delete_old_files example_config example_world 90
            (broken_state\<lparr>files := [aged 100, aged 200]\<rparr>)) = None
   \<and> files (snd (delete_old_files example_config example_world 90
            (broken_state\<lparr>files := [aged 100, aged 200]\<rparr>))) = []"
  by code_simp

subsection \<open>Files that are not archives\<close>

text \<open>
  Claim C5. A file of the scanned tree whose suffix is not \<^verbatim>\<open>.zip\<close> is skipped by the loop
  and is still in the tree, with the metadata it had, after the pass, whatever its age,
  whatever the cutoff, and whether the pass ends normally or with an exception.
\<close>

theorem other_extensions_untouched:
  assumes "f \<in> set (files s)" and "path_suffix (file_path f) \<noteq> ''.zip''"
  shows "decide (now_ts w) c f = Inr Skip \<and> f \<in> set (files (snd (delete_old_files cfg w c s)))"
  using assms by (simp add: delete_old_files_def kept_walk_loop decide_def)

theorem other_extensions_untouched_witness:
  "readme \<in> set (files crowded_state)
   \<and> path_suffix (file_path readme) = ''.txt''
   \<and> age_days (now_ts stubborn_world) (1709649003 - 400 * 86400) = 400
   \<and> readme \<in> set (files (snd (delete_old_files example_config stubborn_world 90 crowded_state)))"
proof -
  have m: "readme \<in> set (files crowded_state)"
    by (simp add: crowded_state_def)
  have x: "path_suffix (file_path readme) = ''.txt''"
    by code_simp
  have x': "path_suffix (file_path readme) \<noteq> ''.zip''"
    using x by simp
  have a: "age_days (now_ts stubborn_world) (1709649003 - 400 * 86400) = 400"
    by (simp add: stubborn_world_def example_world_def age_days_def)
  show ?thesis
    using m x a other_extensions_untouched [OF m x', of stubborn_world 90 example_config]
    by simp
qed

subsection \<open>The name plays no part\<close>

text \<open>
  Claim C6. For two files that both carry the suffix \<^verbatim>\<open>.zip\<close> and have the same
  modification time, the loop decides the same, whatever their names and directories
  are: no part of the name is read as a date. In a pass over a tree that holds both (every
  archive with a modification time, \<^verbatim>\<open>unlink()\<close> failing on both or on neither) one is left
  exactly when the other is.
\<close>

theorem decision_ignores_name:
  assumes "path_suffix (file_path f) = ''.zip''" and "path_suffix (file_path g) = ''.zip''"
    and "st_mtime f = st_mtime g"
  shows "decide ts c f = decide ts c g
       \<and> ((\<forall>h \<in> set (files s). path_suffix (file_path h) = ''.zip'' \<longrightarrow> st_mtime h \<noteq> None)
            \<and> f \<in> set (files s) \<and> g \<in> set (files s)
            \<and> unlink_raises w f = unlink_raises w g \<longrightarrow>
          (f \<in> set (files (snd (delete_old_files cfg w c s)))
             \<longleftrightarrow> g \<in> set (files (snd (delete_old_files cfg w c s)))))"
proof -
  have d: "decide ts c f = decide ts c g" for ts
    using assms by (simp add: decide_def)
  show ?thesis
    using d [of ts] d [of "now_ts w"] by (auto simp: files_delete_old_files)
qed

theorem decision_ignores_name_witness:
  "path_suffix (file_path (aged 100)) = ''.zip''
   \<and> path_suffix (file_path renamed) = ''.zip''
   \<and> st_mtime (aged 100) = st_mtime renamed
   \<and> filename (aged 100) = ''site_100.zip''
   \<and> filename renamed = ''site_20990101_000000.zip''
   \<and> decide (now_ts example_world) 90 (aged 100) = Inr Delete
   \<and> decide (now_ts example_world) 90 renamed = Inr Delete"
proof -
  have h1: "path_suffix (file_path (aged 100)) = ''.zip''"
    by code_simp
  have h2: "path_suffix (file_path renamed) = ''.zip''"
    by code_simp
  have h3: "st_mtime (aged 100) = st_mtime renamed"
    by (simp add: aged_def renamed_def)
  have n1: "filename (aged 100) = ''site_100.zip''"
    by code_simp
  have n2: "filename renamed = ''site_20990101_000000.zip''"
    by (simp add: renamed_def)
  have d: "decide (now_ts example_world) 90 (aged 100) = Inr Delete"
    by code_simp
  show ?thesis
    using h1 h2 h3 n1 n2 d
      decision_ignores_name [OF h1 h2 h3, of "now_ts example_world" 90 crowded_state example_world
        example_config]
    by simp
qed

section \<open>The archive of the running backup\<close>

lemma files_append_log: "files (snd (append_log cfg w l s)) = files s"
  by (simp add: append_log_def split: option.splits)

lemma files_notify_step: "files (notify_step cfg u w s) = files s"
  by (simp add: notify_step_def send_webhook_def Let_def)

lemma max_age_days_positive:
  "0 < RETENTION_DAYS cfg \<or> 0 < RETENTION_WEEKS cfg \<or> 0 < RETENTION_MONTHS cfg \<Longrightarrow>
   1 \<le> max_age_days cfg"
  by (auto simp: max_age_days_def max_def)

lemma young_not_deleted:
  assumes "1 \<le> c" and "st_mtime a = Some m" and "age_days ts m < 1"
  shows "decide ts c a \<noteq> Inr Delete"
proof -
  have "(1::rat) \<le> of_int c" using assms(1) by simp
  then have "\<not> age_days ts m > of_int c" using assms(3) by linarith
  then show ?thesis using assms(2) by (simp add: decide_def)
qed

lemma files_apply_retention_kept:
  "g \<in> set (files s) \<Longrightarrow> decide (now_ts w) (max_age_days cfg) g \<noteq> Inr Delete \<Longrightarrow>
   g \<in> set (files (snd (apply_retention cfg w s)))"
  by (simp add: apply_retention_def delete_old_files_def kept_walk_loop)

text \<open>
  Claim C10. Let at least one retention window be positive, so that the cutoff is at least
  one day, and let the archive that this run created be less than one day old when the
  cleanup reads the clock. Then the cleanup does not mark that archive for deletion, and
  whenever the run got as far as creating it below \<^verbatim>\<open>BACKUP_DIR\<close>, the archive is still
  there when the script ends, however the later steps turn out.
\<close>

theorem own_archive_survives:
  assumes win: "0 < RETENTION_DAYS cfg \<or> 0 < RETENTION_WEEKS cfg \<or> 0 < RETENTION_MONTHS cfg"
    and young: "age_days (now_ts w) (archive_mtime w) < 1"
    and b: "BACKUP_DIR cfg = Some b"
    and zp: "zip_path (BACKUP_DIR cfg) (PROJECT_NAME cfg) (now w) = Inr zp"
  shows "decide (now_ts w) (max_age_days cfg) (archive_entry zp (archive_mtime w)) \<noteq> Inr Delete
       \<and> (\<not> makedirs_raises w \<and> \<not> zip_open_raises w \<and> is_relative_to zp (Path b) \<longrightarrow>
            archive_entry zp (archive_mtime w) \<in> set (files (snd (main cfg w s))))"
proof -
  let ?a = "archive_entry zp (archive_mtime w)"
  have nd: "decide (now_ts w) (max_age_days cfg) ?a \<noteq> Inr Delete"
    using max_age_days_positive [OF win] young
    by (intro young_not_deleted [where m = "archive_mtime w"]) (simp_all add: archive_entry_def)
  have "?a \<in> set (files (snd (main cfg w s)))"
    if "\<not> makedirs_raises w" "\<not> zip_open_raises w" "is_relative_to zp (Path b)"
  proof -
    let ?s0 = "s\<lparr>console := console s @ [Info_creating (path_str zp)]\<rparr>"
    obtain r1 s1 where c: "create_archive cfg w (Path b) zp ?s0 = (r1, s1)"
      by (cases "create_archive cfg w (Path b) zp ?s0")
    have in1: "?a \<in> set (files s1)"
      using c that by (auto simp: create_archive_def add_file_def Let_def split: option.splits if_splits)
    show ?thesis
    proof (cases r1)
      case (Some e)
      then show ?thesis using in1 c b zp that by (simp add: main_def and_then_def)
    next
      case None
      let ?s2 = "s1\<lparr>console := console s1 @ [Info_uploading],
                      commands := commands s1 @ [upload_cmd cfg zp]\<rparr>"
      obtain r3 s3 where l: "log_backup cfg w zp (upload_exit w) ?s2 = (r3, s3)"
        by (cases "log_backup cfg w zp (upload_exit w) ?s2")
      have "files s3 = files ?s2"
        using l files_append_log [of cfg w "Backup_line (path_name zp)
            (if upload_exit w = 0 then ''Success'' else ''Failed'')" ?s2]
        by (simp add: log_backup_def Let_def)
      then have in3: "?a \<in> set (files s3)" using in1 by simp
      show ?thesis
      proof (cases r3)
        case (Some e)
        then show ?thesis using in3 c l b zp that None
          by (simp add: main_def and_then_def Let_def)
      next
        case n3: None
        have "?a \<in> set (files (snd (apply_retention cfg w (notify_step cfg (upload_exit w) w s3))))"
          using in3 nd by (intro files_apply_retention_kept) (simp_all add: files_notify_step)
        then show ?thesis using c l b zp that None n3
          by (simp add: main_def and_then_def Let_def)
      qed
    qed
  qed
  with nd show ?thesis by blast
qed

theorem own_archive_survives_witness:
  "age_days (now_ts example_world) (archive_mtime example_world) < 1
   \<and> zip_path (BACKUP_DIR example_config) (PROJECT_NAME example_config) (now example_world) =
       Inr (Path ''/backups/2024/03/05/site_20240305_143000.zip'')
   \<and> archive_entry (Path ''/backups/2024/03/05/site_20240305_143000.zip'') (archive_mtime example_world)
       \<in> set (files (snd (main example_config example_world example_state)))"
proof -
  have win: "0 < RETENTION_DAYS example_config \<or> 0 < RETENTION_WEEKS example_config
      \<or> 0 < RETENTION_MONTHS example_config"
    by (simp add: example_config_def)
  have young: "age_days (now_ts example_world) (archive_mtime example_world) < 1"
    by (simp add: example_world_def age_days_def)
  have b: "BACKUP_DIR example_config = Some ''/backups''"
    by (simp add: example_config_def)
  have zp: "zip_path (BACKUP_DIR example_config) (PROJECT_NAME example_config) (now example_world) =
       Inr (Path ''/backups/2024/03/05/site_20240305_143000.zip'')"
    by code_simp
  have pre: "\<not> makedirs_raises example_world \<and> \<not> zip_open_raises example_world
      \<and> is_relative_to (Path ''/backups/2024/03/05/site_20240305_143000.zip'') (Path ''/backups'')"
    by code_simp
  show ?thesis
    using young zp pre own_archive_survives [OF win young b zp, of example_state] by blast
qed

section \<open>The cutoff\<close>

text \<open>
  Claim C2. The cutoff handed to \<^verbatim>\<open>delete_old_files\<close> is the largest of the daily window,
  seven times the weekly window and thirty times the monthly window, for all integer
  windows and so for all that are not negative; when the three variables are set to
  \<open>d\<close>, \<open>k\<close> and \<open>m\<close> it is the largest of \<open>d\<close>, \<open>7 * k\<close> and \<open>30 * m\<close>. A configuration whose
  windows are each at least as large never has a smaller cutoff, which covers raising
  any single window.
\<close>

theorem cutoff_is_max:
  "max_age_days cfg =
     max (RETENTION_DAYS cfg) (max (7 * RETENTION_WEEKS cfg) (30 * RETENTION_MONTHS cfg))
   \<and> apply_retention cfg w s =
       delete_old_files cfg w
         (max (RETENTION_DAYS cfg) (max (7 * RETENTION_WEEKS cfg) (30 * RETENTION_MONTHS cfg))) s
   \<and> (RETENTION_DAYS cfg \<le> RETENTION_DAYS cfg' \<and> RETENTION_WEEKS cfg \<le> RETENTION_WEEKS cfg'
        \<and> RETENTION_MONTHS cfg \<le> RETENTION_MONTHS cfg' \<longrightarrow>
      max_age_days cfg \<le> max_age_days cfg')
   \<and> (env_RETENTION_DAYS env = Int_text d \<and> env_RETENTION_WEEKS env = Int_text k
        \<and> env_RETENTION_MONTHS env = Int_text m \<longrightarrow>
      (case load_config env of
         Inl e \<Rightarrow> False
       | Inr c \<Rightarrow> max_age_days c = max d (max (7 * k) (30 * m))))"
  by (auto simp: max_age_days_def apply_retention_def load_config_def getenv_int_def mult.commute)

theorem cutoff_is_max_witness:
  "max_age_days example_config = 90
   \<and> RETENTION_WEEKS example_config \<le> RETENTION_WEEKS (example_config\<lparr>RETENTION_WEEKS := 20\<rparr>)
   \<and> max_age_days (example_config\<lparr>RETENTION_WEEKS := 20\<rparr>) = 140
   \<and> max_age_days example_config \<le> max_age_days (example_config\<lparr>RETENTION_WEEKS := 20\<rparr>)"
proof -
  have a: "max_age_days example_config = 90"
    by code_simp
  have b: "max_age_days (example_config\<lparr>RETENTION_WEEKS := 20\<rparr>) = 140"
    by code_simp
  have h: "RETENTION_DAYS example_config \<le> RETENTION_DAYS (example_config\<lparr>RETENTION_WEEKS := 20\<rparr>)
      \<and> RETENTION_WEEKS example_config \<le> RETENTION_WEEKS (example_config\<lparr>RETENTION_WEEKS := 20\<rparr>)
      \<and> RETENTION_MONTHS example_config \<le> RETENTION_MONTHS (example_config\<lparr>RETENTION_WEEKS := 20\<rparr>)"
    by (simp add: example_config_def)
  show ?thesis
    using a b h
      cutoff_is_max [of example_config example_world example_state
        "example_config\<lparr>RETENTION_WEEKS := 20\<rparr>" example_env 7 4 3]
    by blast
qed


section \<open>Artifact naming\<close>

lemma split_on_no_sep: "c \<notin> set s \<Longrightarrow> split_on c s = [s]"
  by (induction s) auto

lemma split_on_append_sep:
  "c \<notin> set xs \<Longrightarrow> split_on c (xs @ c # ys) = xs # split_on c ys"
  by (induction xs) auto

lemma digit_char_in: "digit_char d \<in> set ''0123456789''"
proof -
  have "d mod 10 < length ''0123456789''" by simp
  then show ?thesis unfolding digit_char_def by (rule nth_mem)
qed

lemma show_nat_digits: "set (show_nat n) \<subseteq> set ''0123456789''"
proof (induction n rule: show_nat.induct)
  case (1 n)
  show ?case
  proof (cases "n < 10")
    case True
    then show ?thesis using digit_char_in [of n] by (subst show_nat.simps) simp
  next
    case False
    then show ?thesis using 1 digit_char_in [of n] by (subst show_nat.simps) simp
  qed
qed

lemma show_nat_nonempty: "show_nat n \<noteq> []"
  by (subst show_nat.simps) simp

lemma zfill_digits: "set (zfill w (show_nat n)) \<subseteq> set ''0123456789''"
  using show_nat_digits [of n] by (auto simp: zfill_def)

lemma zfill_nonempty: "zfill w (show_nat n) \<noteq> []"
  by (simp add: zfill_def show_nat_nonempty)

lemma zfill_no_slash: "CHR ''/'' \<notin> set (zfill w (show_nat n))"
  using zfill_digits [of w n] by auto

lemma zfill_not_dot: "zfill w (show_nat n) \<noteq> ''.''"
  using zfill_digits [of w n] by auto

lemma zfill_take1: "take 1 (zfill w (show_nat n) @ rest) \<noteq> ''/''"
proof -
  obtain y ys where y: "zfill w (show_nat n) = y # ys"
    using zfill_nonempty [of w n] by (cases "zfill w (show_nat n)") auto
  then have "y \<noteq> CHR ''/''" using zfill_no_slash [of w n] by auto
  then show ?thesis using y by simp
qed

lemma Path_date_path:
  "Path (strftime_date_path t) =
     \<lparr>root = [], parts = [zfill 4 (show_nat (year t)), zfill 2 (show_nat (month t)),
                          zfill 2 (show_nat (day t))]\<rparr>"
proof -
  have r: "splitroot (strftime_date_path t) = ([], strftime_date_path t)"
    using zfill_take1 [of 4 "year t"] by (simp add: splitroot_def strftime_date_path_def)
  have s: "split_on CHR ''/'' (strftime_date_path t) =
      [zfill 4 (show_nat (year t)), zfill 2 (show_nat (month t)), zfill 2 (show_nat (day t))]"
    by (simp add: strftime_date_path_def split_on_append_sep split_on_no_sep zfill_no_slash)
  show ?thesis
    by (simp add: Path_def r s zfill_nonempty zfill_not_dot)
qed

lemma root_Path_relative: "take 1 s \<noteq> ''/'' \<Longrightarrow> root (Path s) = []"
  by (simp add: Path_def splitroot_def)

lemma zip_path_relative:
  assumes "take 1 (fstr pn) \<noteq> ''/''"
  shows "zip_path (Some backup_dir) pn t = Inr (layout backup_dir (fstr pn) t)"
proof -
  have "take 1 (zip_name pn t) \<noteq> ''/''"
    using assms by (cases "fstr pn") (simp_all add: zip_name_def)
  then have "root (Path (zip_name pn t)) = []"
    by (rule root_Path_relative)
  then show ?thesis
    by (simp add: zip_path_def zip_dir_def truediv_def Path_date_path layout_def zip_name_def
        strftime_timestamp_def Let_def)
qed

lemma suffix_join_sep:
  "ys \<noteq> [] \<Longrightarrow> suffix (join_sep sep ys) (join_sep sep (xs @ ys))"
proof (induction xs)
  case Nil
  then show ?case by simp
next
  case (Cons x xs)
  then obtain z zs where z: "xs @ ys = z # zs" by (cases "xs @ ys") auto
  have "suffix (join_sep sep ys) (join_sep sep (z # zs))" using Cons z by simp
  then have "suffix (join_sep sep ys) (x @ sep @ join_sep sep (z # zs))"
    by (simp add: suffix_appendI)
  then show ?case using z by simp
qed

lemma suffix_path_str:
  "ys \<noteq> [] \<Longrightarrow> suffix (join_sep ''/'' ys) (path_str \<lparr>root = r, parts = xs @ ys\<rparr>)"
  using suffix_join_sep [of ys "''/''" xs] by (simp add: path_str_def suffix_appendI)

text \<open>
  Claim C9, as amended. \<open>zip_path\<close> is a function of \<^verbatim>\<open>BACKUP_DIR\<close>, the project name and the
  clock reading alone. For a project name that does not begin with \<^verbatim>\<open>/\<close> it is the layout
  of the specification; when the name holds no \<^verbatim>\<open>/\<close> at all, the file is named
  \<^verbatim>\<open><PROJECT_NAME>_<YYYYMMDD_HHMMSS>.zip\<close>. For the project \<^verbatim>\<open>site\<close> at 2024-03-05T14:30:00
  the path ends in \<^verbatim>\<open>2024/03/05/site_20240305_143000.zip\<close>, whatever \<^verbatim>\<open>BACKUP_DIR\<close> is.
\<close>

theorem artifact_path_layout:
  assumes "take 1 (fstr pn) \<noteq> ''/''"
  shows "zip_path (Some backup_dir) pn t = Inr (layout backup_dir (fstr pn) t)
       \<and> (CHR ''/'' \<notin> set (fstr pn) \<longrightarrow>
            path_name (layout backup_dir (fstr pn) t) = zip_name pn t)
       \<and> (case zip_path (Some backup_dir) (Some ''site'')
                 \<lparr>year = 2024, month = 3, day = 5, hour = 14, minute = 30, second = 0,
                  microsecond = 0\<rparr> of
            Inl e \<Rightarrow> False
          | Inr p \<Rightarrow> suffix ''2024/03/05/site_20240305_143000.zip'' (path_str p))"
proof -
  let ?t0 = "\<lparr>year = 2024, month = 3, day = 5, hour = 14, minute = 30, second = 0,
                  microsecond = 0\<rparr>"
  have 1: "zip_path (Some backup_dir) pn t = Inr (layout backup_dir (fstr pn) t)"
    using assms by (rule zip_path_relative)
  have 2: "path_name (layout backup_dir (fstr pn) t) = zip_name pn t"
    if "CHR ''/'' \<notin> set (fstr pn)"
  proof -
    have ns: "CHR ''/'' \<notin> set (zip_name pn t)"
      using that zfill_no_slash by (auto simp: zip_name_def strftime_timestamp_def)
    have ne: "zip_name pn t \<noteq> []" "zip_name pn t \<noteq> ''.''"
      by (auto simp: zip_name_def strftime_timestamp_def append_eq_Cons_conv)
    have "take 1 (zip_name pn t) \<noteq> ''/''"
      using ns ne by (cases "zip_name pn t") auto
    then have "splitroot (zip_name pn t) = ([], zip_name pn t)"
      by (simp add: splitroot_def)
    then have "parts (Path (zip_name pn t)) = [zip_name pn t]"
      using ns ne by (simp add: Path_def split_on_no_sep)
    then show ?thesis
      by (simp add: layout_def path_name_def zip_name_def strftime_timestamp_def)
  qed
  have site: "zip_path (Some backup_dir) (Some ''site'') ?t0 = Inr (layout backup_dir ''site'' ?t0)"
    using zip_path_relative [of "Some ''site''" backup_dir ?t0] by (simp add: fstr_def)
  have l: "layout backup_dir ''site'' ?t0 =
      \<lparr>root = root (Path backup_dir),
       parts = parts (Path backup_dir) @ [''2024'', ''03'', ''05'', ''site_20240305_143000.zip'']\<rparr>"
    unfolding layout_def by code_simp
  have "suffix (join_sep ''/'' [''2024'', ''03'', ''05'', ''site_20240305_143000.zip''])
      (path_str (layout backup_dir ''site'' ?t0))"
    unfolding l by (rule suffix_path_str) simp
  then have 3: "suffix ''2024/03/05/site_20240305_143000.zip'' (path_str (layout backup_dir ''site'' ?t0))"
    by simp
  from 1 2 3 site show ?thesis by simp
qed

theorem artifact_path_layout_witness:
  "take 1 (fstr (Some ''site'')) \<noteq> ''/''
   \<and> zip_path (Some ''/backups'') (Some ''site'') (now example_world) =
       Inr (Path ''/backups/2024/03/05/site_20240305_143000.zip'')
   \<and> path_str (Path ''/backups/2024/03/05/site_20240305_143000.zip'') =
       ''/backups/2024/03/05/site_20240305_143000.zip''"
proof -
  have h: "take 1 (fstr (Some ''site'')) \<noteq> ''/''"
    by code_simp
  have l: "layout ''/backups'' (fstr (Some ''site'')) (now example_world) =
      Path ''/backups/2024/03/05/site_20240305_143000.zip''"
    by code_simp
  have p: "path_str (Path ''/backups/2024/03/05/site_20240305_143000.zip'') =
      ''/backups/2024/03/05/site_20240305_143000.zip''"
    by code_simp
  show ?thesis
    using h l p artifact_path_layout [OF h, of "''/backups''" "now example_world"] by simp
qed

text \<open>
  The claim as the specification states it, for every project name, fails for a name that
  begins with \<^verbatim>\<open>/\<close>: joining discards \<^verbatim>\<open>BACKUP_DIR\<close> and the date directories, and the
  archive lies outside the backup tree.
\<close>

theorem absolute_project_name_escapes:
  "zip_path (Some ''/backups'') (Some ''/srv/site'')
       \<lparr>year = 2024, month = 3, day = 5, hour = 14, minute = 30, second = 0, microsecond = 0\<rparr> =
     Inr \<lparr>root = ''/'', parts = [''srv'', ''site_20240305_143000.zip'']\<rparr>
   \<and> path_str \<lparr>root = ''/'', parts = [''srv'', ''site_20240305_143000.zip'']\<rparr> =
       ''/srv/site_20240305_143000.zip''
   \<and> path_str (layout ''/backups'' ''/srv/site''
       \<lparr>year = 2024, month = 3, day = 5, hour = 14, minute = 30, second = 0, microsecond = 0\<rparr>) =
       ''/backups/2024/03/05/srv/site_20240305_143000.zip''
   \<and> zip_path (Some ''/backups'') (Some ''/srv/site'')
       \<lparr>year = 2024, month = 3, day = 5, hour = 14, minute = 30, second = 0, microsecond = 0\<rparr> \<noteq>
     Inr (layout ''/backups'' ''/srv/site''
       \<lparr>year = 2024, month = 3, day = 5, hour = 14, minute = 30, second = 0, microsecond = 0\<rparr>)"
  by code_simp

section \<open>A history log that cannot be written\<close>

text \<open>
  The webhook is called at most once in a run, and only after an upload that returned 0
  with \<^verbatim>\<open>NOTIFY\<close> on; in a run that ends without an exception it is called exactly then.
  The cleanup never calls it.
\<close>

lemma notify_calls_try_unlink: "notify_calls (try_unlink cfg w f s) = notify_calls s"
  by (simp add: try_unlink_def append_log_def split: option.splits)

lemma notify_calls_walk_loop: "notify_calls (snd (walk_loop cfg w c xs s)) = notify_calls s"
  by (induction xs arbitrary: s) (simp_all add: walk_loop_Cons notify_calls_try_unlink)

lemma notify_calls_apply_retention: "notify_calls (snd (apply_retention cfg w s)) = notify_calls s"
  by (simp add: apply_retention_def delete_old_files_def notify_calls_walk_loop)

lemma notify_calls_create_archive:
  "notify_calls (snd (create_archive cfg w base zp s)) = notify_calls s"
  by (simp add: create_archive_def Let_def split: option.splits)

lemma notify_calls_log_backup: "notify_calls (snd (log_backup cfg w zp u s)) = notify_calls s"
  by (simp add: log_backup_def append_log_def Let_def split: option.splits)

lemma notify_calls_notify_step:
  "notify_calls (notify_step cfg u w s) =
     notify_calls s @
       (if NOTIFY cfg \<and> u = 0
        then [(WEBHOOK_URL cfg, \<lparr>project = PROJECT_NAME cfg, date = isoformat (now w),
                                  status = ''BackupSuccessful''\<rparr>)]
        else [])"
  by (simp add: notify_step_def send_webhook_def Let_def)

lemma fst_log_backup:
  "fst (log_backup cfg w zp u s) = None \<longleftrightarrow>
     LOG_FILE cfg \<noteq> None
     \<and> \<not> log_raises w (Backup_line (path_name zp) (if u = 0 then ''Success'' else ''Failed''))"
  by (simp add: log_backup_def append_log_def Let_def split: option.splits)

lemma notify_calls_main:
  "notify_calls (snd (main cfg w s)) =
     notify_calls s \<or>
   NOTIFY cfg \<and> upload_exit w = 0 \<and>
   notify_calls (snd (main cfg w s)) =
     notify_calls s @ [(WEBHOOK_URL cfg, \<lparr>project = PROJECT_NAME cfg, date = isoformat (now w),
                                          status = ''BackupSuccessful''\<rparr>)]"
proof (cases "BACKUP_DIR cfg")
  case None
  then show ?thesis by (simp add: main_def)
next
  case (Some b)
  show ?thesis
  proof (cases "zip_path (BACKUP_DIR cfg) (PROJECT_NAME cfg) (now w)")
    case (Inl e)
    then show ?thesis using Some by (simp add: main_def)
  next
    case (Inr zp)
    show ?thesis
    proof (cases "makedirs_raises w")
      case True
      then show ?thesis using Some Inr by (simp add: main_def)
    next
      case False
      let ?s0 = "s\<lparr>console := console s @ [Info_creating (path_str zp)]\<rparr>"
      obtain r1 s1 where c: "create_archive cfg w (Path b) zp ?s0 = (r1, s1)"
        by (cases "create_archive cfg w (Path b) zp ?s0")
      have n1: "notify_calls s1 = notify_calls s"
        using c notify_calls_create_archive [of cfg w "Path b" zp ?s0] by simp
      let ?s2 = "s1\<lparr>console := console s1 @ [Info_uploading],
                      commands := commands s1 @ [upload_cmd cfg zp]\<rparr>"
      obtain r3 s3 where l: "log_backup cfg w zp (upload_exit w) ?s2 = (r3, s3)"
        by (cases "log_backup cfg w zp (upload_exit w) ?s2")
      have n3: "notify_calls s3 = notify_calls s"
        using l n1 notify_calls_log_backup [of cfg w zp "upload_exit w" ?s2] by simp
      show ?thesis
        using Some Inr False c l n1 n3
        by (cases r1; cases r3)
           (simp_all add: main_def and_then_def Let_def notify_calls_apply_retention
              notify_calls_notify_step)
    qed
  qed
qed

lemma notify_when_logged:
  assumes "fst (main cfg w s) = None"
  shows "notify_calls (snd (main cfg w s)) =
     notify_calls s @
       (if NOTIFY cfg \<and> upload_exit w = 0
        then [(WEBHOOK_URL cfg, \<lparr>project = PROJECT_NAME cfg, date = isoformat (now w),
                                  status = ''BackupSuccessful''\<rparr>)]
        else [])"
proof (cases "BACKUP_DIR cfg")
  case None
  then show ?thesis using assms by (simp add: main_def)
next
  case (Some b)
  show ?thesis
  proof (cases "zip_path (BACKUP_DIR cfg) (PROJECT_NAME cfg) (now w)")
    case (Inl e)
    then show ?thesis using Some assms by (simp add: main_def)
  next
    case (Inr zp)
    show ?thesis
    proof (cases "makedirs_raises w")
      case True
      then show ?thesis using Some Inr assms by (simp add: main_def)
    next
      case False
      let ?s0 = "s\<lparr>console := console s @ [Info_creating (path_str zp)]\<rparr>"
      obtain r1 s1 where c: "create_archive cfg w (Path b) zp ?s0 = (r1, s1)"
        by (cases "create_archive cfg w (Path b) zp ?s0")
      have n1: "notify_calls s1 = notify_calls s"
        using c notify_calls_create_archive [of cfg w "Path b" zp ?s0] by simp
      let ?s2 = "s1\<lparr>console := console s1 @ [Info_uploading],
                      commands := commands s1 @ [upload_cmd cfg zp]\<rparr>"
      obtain r3 s3 where l: "log_backup cfg w zp (upload_exit w) ?s2 = (r3, s3)"
        by (cases "log_backup cfg w zp (upload_exit w) ?s2")
      have n3: "notify_calls s3 = notify_calls s"
        using l n1 notify_calls_log_backup [of cfg w zp "upload_exit w" ?s2] by simp
      show ?thesis
        using Some Inr False c l n1 n3 assms
        by (cases r1; cases r3)
           (simp_all add: main_def and_then_def Let_def notify_calls_apply_retention
              notify_calls_notify_step)
    qed
  qed
qed

text \<open>
  Claim C8 against the code. The write of the backup's history line at lines 58 and 59
  stands in no \<^verbatim>\<open>try\<close> block. With \<^verbatim>\<open>LOG_FILE\<close> not set the script ends there with
  \<^verbatim>\<open>TypeError\<close>: the webhook is not called and the archive aged 100 days is not removed,
  while the same run with a writable log calls the webhook once and removes it.
\<close>

theorem backup_log_failure_aborts:
  "fst (run example_env example_world example_state) = None
   \<and> length (notify_calls (snd (run example_env example_world example_state))) = 1
   \<and> aged 100 \<notin> set (files (snd (run example_env example_world example_state)))
   \<and> fst (run (example_env\<lparr>env_LOG_FILE := None\<rparr>) example_world example_state) = Some TypeError
   \<and> notify_calls (snd (run (example_env\<lparr>env_LOG_FILE := None\<rparr>) example_world example_state)) = []
   \<and> aged 100 \<in> set (files (snd (run (example_env\<lparr>env_LOG_FILE := None\<rparr>) example_world
        example_state)))"
  by code_simp


text \<open>
  Claim C7 against the code. With an upload that returned 0 and \<^verbatim>\<open>NOTIFY\<close> on, a history
  log that cannot be written ends the script before line 62, and no payload is sent.
\<close>

theorem notification_lost_with_log:
  "getenv_notify (env_NOTIFY example_env)
   \<and> upload_exit (example_world\<lparr>log_raises := (\<lambda>l. True)\<rparr>) = 0
   \<and> fst (run example_env (example_world\<lparr>log_raises := (\<lambda>l. True)\<rparr>) example_state) = Some OSError
   \<and> notify_calls (snd (run example_env (example_world\<lparr>log_raises := (\<lambda>l. True)\<rparr>) example_state))
       = []"
  by code_simp

end
